theory Spec2Isabelle
  imports Complex_Main "HOL-Library.Sublist"
begin

section \<open>The simulation case files\<close>

text \<open>
  The case files \<^verbatim>\<open>keller-segel.c\<close> and \<^verbatim>\<open>brusselator.c\<close> are written against the
  Basilisk framework: the grid, the generic time loop \<^verbatim>\<open>run()\<close>, the random source
  \<^verbatim>\<open>noise()\<close>, the timestep control \<^verbatim>\<open>dtnext()\<close> and the implicit solver
  \<^verbatim>\<open>diffusion()\<close> are the framework's, not the repository's. The framework's functions
  are parameters of the model (the record \<open>framework\<close>); the events and \<^verbatim>\<open>main\<close> are
  translated from the case files. A \<^verbatim>\<open>double\<close> is modelled as a real number; the
  rounding of the operations is added in a second translation of \<open>init\<close> and
  \<open>integration\<close> further down, for the property that depends on it.
\<close>

subsection \<open>Data\<close>

text \<open>A scalar field holds one value per grid cell; \<^verbatim>\<open>foreach()\<close> visits every cell.\<close>

type_synonym cell = "nat \<times> nat"
type_synonym field = "cell \<Rightarrow> real"

text \<open>Of the solver statistics \<^verbatim>\<open>mgstats\<close> the case files read the member \<^verbatim>\<open>i\<close> only.\<close>

record mgstats =
  mg_i :: int

text \<open>
  What a run writes: \<^verbatim>\<open>output_ppm (field, file, n, linear, spread)\<close> and the line
  \<^verbatim>\<open>fprintf (stderr, "%d %g %g %d %d\n", i, t, dt, mgd1.i, mgd2.i)\<close>.
\<close>

datatype written =
    Ppm field string nat bool real
  | Stderr_line int real real int int

text \<open>
  The framework: \<open>noise j c\<close> is the value \<^verbatim>\<open>noise()\<close> returns at cell \<open>c\<close> during the
  \<open>j\<close>-th sweep that draws random numbers (the generator's state outlives a run);
  \<open>dtnext tm dtmax\<close> is the timestep granted at time \<open>tm\<close>;
  \<open>diffusion (N, L0, TOLERANCE) f dt D r beta\<close> returns the field after the implicit
  solve and its statistics (\<open>D = None\<close> is the default, unit diffusion coefficient);
  \<open>fmt_g\<close> is \<^verbatim>\<open>printf\<close>'s \<^verbatim>\<open>%g\<close>.
\<close>

record framework =
  noise :: "nat \<Rightarrow> cell \<Rightarrow> real"
  dtnext :: "real \<Rightarrow> real \<Rightarrow> real"
  diffusion :: "nat \<times> real \<times> real \<Rightarrow> field \<Rightarrow> real \<Rightarrow> (real \<times> real) option
                  \<Rightarrow> field \<Rightarrow> field \<Rightarrow> field \<times> mgstats"
  fmt_g :: "real \<Rightarrow> string"

text \<open>
  The globals: those of the case file (\<^verbatim>\<open>C1, C2, mu, kb, dt, mgd1, mgd2\<close>), those of
  the framework (\<^verbatim>\<open>N, L0, TOLERANCE\<close>, the iteration \<^verbatim>\<open>i\<close> and the time \<^verbatim>\<open>t\<close>), the
  number of random sweeps drawn so far, and everything written so far.
\<close>

record sim =
  C1 :: field
  C2 :: field
  mu :: real
  kb :: real
  dt :: real
  mgd1 :: mgstats
  mgd2 :: mgstats
  N :: nat
  L0 :: real
  TOLERANCE :: real
  iter :: nat
  t :: real
  nrand :: nat
  out :: "written list"

text \<open>\<^verbatim>\<open>double k = 1., ka = 4.5, D = 8.;\<close> (never assigned afterwards).\<close>

definition k :: real where "k = 1"
definition ka :: real where "ka = 4.5"
definition D :: real where "D = 8"

definition sq :: "real \<Rightarrow> real" where "sq x = x * x"

subsection \<open>keller-segel.c\<close>

text \<open>\<^verbatim>\<open>event init (i = 0)\<close>\<close>

definition init :: "framework \<Rightarrow> sim \<Rightarrow> sim" where
  "init fw s =
    (let nu = sqrt (1 / D);
         kbcrit = sq (1 + ka * nu);
         kb' = kbcrit * (1 + mu s)
     in s\<lparr>kb := kb',
          C1 := (\<lambda>c. ka),
          C2 := (\<lambda>c. kb' / ka + 0.01 * noise fw (nrand s) c),
          nrand := nrand s + 1\<rparr>)"

text \<open>\<^verbatim>\<open>event movie (i = 1; i += 10)\<close>\<close>

definition movie :: "sim \<Rightarrow> sim" where
  "movie s =
    s\<lparr>out := out s @
       [Ppm (C1 s) ''f.mp4'' 200 True 2,
        Stderr_line (int (iter s)) (t s) (dt s) (mg_i (mgd1 s)) (mg_i (mgd2 s))]\<rparr>"

text \<open>\<^verbatim>\<open>event final (t = 3000)\<close>\<close>

definition final :: "framework \<Rightarrow> sim \<Rightarrow> sim" where
  "final fw s =
    (let name = ''mu-'' @ fmt_g fw (mu s) @ ''.png''
     in s\<lparr>out := out s @ [Ppm (C1 s) name 200 True 2]\<rparr>)"

text \<open>\<^verbatim>\<open>event integration (i++)\<close>\<close>

definition integration :: "framework \<Rightarrow> sim \<Rightarrow> sim" where
  "integration fw s =
    (let dt' = dtnext fw (t s) 1;
         g = (N s, L0 s, TOLERANCE s);
         r = (\<lambda>c. k * ka);
         beta = (\<lambda>c. k * (C1 s c * C2 s c - kb s - 1));
         (C1', m1) = diffusion fw g (C1 s) dt' None r beta;
         r = (\<lambda>c. k * kb s * C1' c);
         beta = (\<lambda>c. - k * sq (C1' c));
         c = (D, D);
         (C2', m2) = diffusion fw g (C2 s) dt' (Some c) r beta
     in s\<lparr>dt := dt', C1 := C1', mgd1 := m1, C2 := C2', mgd2 := m2\<rparr>)"

text \<open>
  One pass of the time loop runs the events that are due at iteration \<open>iter s\<close> and time
  \<open>t s\<close>, in the order of the file: \<open>init\<close> at \<open>i = 0\<close>, \<open>movie\<close> at \<open>i = 1, 11, 21, ...\<close>,
  \<open>final\<close> at \<open>t = 3000\<close>, \<open>integration\<close> at every iteration.
\<close>

definition movie_due :: "nat \<Rightarrow> bool" where
  "movie_due i = (1 \<le> i \<and> (i - 1) mod 10 = 0)"

definition events :: "framework \<Rightarrow> sim \<Rightarrow> sim" where
  "events fw s =
    (let s1 = (if iter s = 0 then init fw s else s);
         s2 = (if movie_due (iter s) then movie s1 else s1);
         s3 = (if t s = 3000 then final fw s2 else s2)
     in integration fw s3)"

text \<open>
  The framework's loop: after a pass the iteration is incremented and the time advanced
  by the timestep that \<^verbatim>\<open>dtnext\<close> granted; the loop ends with the pass of the last
  scheduled event, \<open>final\<close> at \<open>t = 3000\<close>. The fuel bounds the number of passes.
\<close>

definition advance :: "sim \<Rightarrow> sim" where
  "advance s = s\<lparr>iter := iter s + 1, t := t s + dt s\<rparr>"

fun time_loop :: "nat \<Rightarrow> framework \<Rightarrow> sim \<Rightarrow> sim option" where
  "time_loop 0 fw s = None"
| "time_loop (Suc fuel) fw s =
    (let s' = events fw s
     in if t s = 3000 then Some s' else time_loop fuel fw (advance s'))"

text \<open>The state in which the \<open>n\<close>-th pass of a loop started in \<open>s\<close> begins.\<close>

primrec iterations :: "framework \<Rightarrow> nat \<Rightarrow> sim \<Rightarrow> sim" where
  "iterations fw 0 s = s"
| "iterations fw (Suc n) s = advance (events fw (iterations fw n s))"

text \<open>\<^verbatim>\<open>run()\<close> starts the loop at iteration 0 and time 0.\<close>

definition run :: "nat \<Rightarrow> framework \<Rightarrow> sim \<Rightarrow> sim option" where
  "run fuel fw s = time_loop fuel fw (s\<lparr>iter := 0, t := 0\<rparr>)"

text \<open>\<^verbatim>\<open>int main()\<close>\<close>

definition main :: "nat \<Rightarrow> framework \<Rightarrow> sim \<Rightarrow> sim option" where
  "main fuel fw s =
    (let s = s\<lparr>N := 128\<rparr>;
         s = s\<lparr>L0 := 64\<rparr>;
         s = s\<lparr>TOLERANCE := 0.0001\<rparr>
     in Option.bind (run fuel fw (s\<lparr>mu := 0.04\<rparr>)) (\<lambda>s.
        Option.bind (run fuel fw (s\<lparr>mu := 0.1\<rparr>)) (\<lambda>s.
        run fuel fw (s\<lparr>mu := 0.98\<rparr>))))"

subsection \<open>brusselator.c\<close>

text \<open>\<^verbatim>\<open>event init (i = 0)\<close>\<close>

definition init_br :: "framework \<Rightarrow> sim \<Rightarrow> sim" where
  "init_br fw s =
    (let nu = sqrt (1 / D);
         kbcrit = sq (1 + ka * nu);
         kb' = kbcrit * (1 + mu s)
     in s\<lparr>kb := kb',
          C1 := (\<lambda>c. ka),
          C2 := (\<lambda>c. kb' / ka + 0.01 * noise fw (nrand s) c),
          nrand := nrand s + 1\<rparr>)"

text \<open>\<^verbatim>\<open>event movie (i = 1; i += 10)\<close>\<close>

definition movie_br :: "sim \<Rightarrow> sim" where
  "movie_br s =
    s\<lparr>out := out s @
       [Ppm (C1 s) ''f.mp4'' 200 True 2,
        Stderr_line (int (iter s)) (t s) (dt s) (mg_i (mgd1 s)) (mg_i (mgd2 s))]\<rparr>"

text \<open>\<^verbatim>\<open>event final (t = 3000)\<close>\<close>

definition final_br :: "framework \<Rightarrow> sim \<Rightarrow> sim" where
  "final_br fw s =
    (let name = ''mu-'' @ fmt_g fw (mu s) @ ''.png''
     in s\<lparr>out := out s @ [Ppm (C1 s) name 200 True 2]\<rparr>)"

text \<open>\<^verbatim>\<open>event integration (i++)\<close>\<close>

definition integration_br :: "framework \<Rightarrow> sim \<Rightarrow> sim" where
  "integration_br fw s =
    (let dt' = dtnext fw (t s) 1;
         g = (N s, L0 s, TOLERANCE s);
         r = (\<lambda>c. k * ka);
         beta = (\<lambda>c. k * (C1 s c * C2 s c - kb s - 1));
         (C1', m1) = diffusion fw g (C1 s) dt' None r beta;
         r = (\<lambda>c. k * kb s * C1' c);
         beta = (\<lambda>c. - k * sq (C1' c));
         c = (D, D);
         (C2', m2) = diffusion fw g (C2 s) dt' (Some c) r beta
     in s\<lparr>dt := dt', C1 := C1', mgd1 := m1, C2 := C2', mgd2 := m2\<rparr>)"

definition events_br :: "framework \<Rightarrow> sim \<Rightarrow> sim" where
  "events_br fw s =
    (let s1 = (if iter s = 0 then init_br fw s else s);
         s2 = (if movie_due (iter s) then movie_br s1 else s1);
         s3 = (if t s = 3000 then final_br fw s2 else s2)
     in integration_br fw s3)"

fun time_loop_br :: "nat \<Rightarrow> framework \<Rightarrow> sim \<Rightarrow> sim option" where
  "time_loop_br 0 fw s = None"
| "time_loop_br (Suc fuel) fw s =
    (let s' = events_br fw s
     in if t s = 3000 then Some s' else time_loop_br fuel fw (advance s'))"

definition run_br :: "nat \<Rightarrow> framework \<Rightarrow> sim \<Rightarrow> sim option" where
  "run_br fuel fw s = time_loop_br fuel fw (s\<lparr>iter := 0, t := 0\<rparr>)"

text \<open>\<^verbatim>\<open>int main()\<close>\<close>

definition main_br :: "nat \<Rightarrow> framework \<Rightarrow> sim \<Rightarrow> sim option" where
  "main_br fuel fw s =
    (let s = s\<lparr>N := 128\<rparr>;
         s = s\<lparr>L0 := 64\<rparr>;
         s = s\<lparr>TOLERANCE := 0.0001\<rparr>
     in Option.bind (run_br fuel fw (s\<lparr>mu := 0.04\<rparr>)) (\<lambda>s.
        Option.bind (run_br fuel fw (s\<lparr>mu := 0.1\<rparr>)) (\<lambda>s.
        run_br fuel fw (s\<lparr>mu := 0.98\<rparr>))))"

section \<open>The events in double arithmetic\<close>











section \<open>The shell scripts\<close>

text \<open>
  \<^verbatim>\<open>runCases.sh\<close> and \<^verbatim>\<open>cleanup.sh\<close> run under \<^verbatim>\<open>set -euo pipefail\<close>. The programs
  they call (\<^verbatim>\<open>dirname\<close>, \<^verbatim>\<open>cd\<close> and \<^verbatim>\<open>pwd\<close>, \<^verbatim>\<open>mkdir\<close>, \<^verbatim>\<open>cp\<close>, \<^verbatim>\<open>qcc\<close>, the
  compiled case, \<^verbatim>\<open>rm\<close>) are parameters of the model: each maps the world (of any type
  \<open>'w\<close>: the file system and whatever else a program changes, such as the terminal it
  writes its messages to) to an exit status and a new world. The shell state is the
  world, the trace of the commands run so far, and the lines the script itself has
  written to standard error.
\<close>

type_synonym path = string

datatype command =
    Resolve path
  | Mkdir_p path
  | Cp path path
  | Cd path
  | Qcc "string list"
  | Exec string
  | Rm_rf path

text \<open>
  \<open>resolve p\<close> is the substitution \<^verbatim>\<open>$(cd "p" && pwd)\<close>: the absolute name of the
  directory \<open>p\<close>, or a failure. \<open>qcc\<close> and \<open>exec\<close> take the working directory of the
  subshell they run in first.
\<close>

record 'w tools =
  dirname :: "path \<Rightarrow> path"
  resolve :: "path \<Rightarrow> 'w \<Rightarrow> path option"
  mkdir_p :: "path \<Rightarrow> 'w \<Rightarrow> nat \<times> 'w"
  cp :: "path \<Rightarrow> path \<Rightarrow> 'w \<Rightarrow> nat \<times> 'w"
  cd :: "path \<Rightarrow> 'w \<Rightarrow> nat"
  qcc :: "path \<Rightarrow> string list \<Rightarrow> 'w \<Rightarrow> nat \<times> 'w"
  exec :: "path \<Rightarrow> string \<Rightarrow> 'w \<Rightarrow> nat \<times> 'w"
  rm_rf :: "path \<Rightarrow> 'w \<Rightarrow> nat \<times> 'w"

record 'w shell =
  world :: 'w
  trace :: "command list"
  stderr :: "string list"

text \<open>
  \<^verbatim>\<open>set -e\<close>: a command that returns a status other than 0 ends the script (or the
  subshell) with that status; otherwise the next command runs.
\<close>

definition errexit :: "nat \<times> 'w shell \<Rightarrow> ('w shell \<Rightarrow> nat \<times> 'w shell) \<Rightarrow> nat \<times> 'w shell" where
  "errexit r f = (case r of (st, sh) \<Rightarrow> if st = 0 then f sh else (st, sh))"

definition sh_resolve :: "'w tools \<Rightarrow> path \<Rightarrow> 'w shell \<Rightarrow> path option \<times> 'w shell" where
  "sh_resolve T p sh = (resolve T p (world sh), sh\<lparr>trace := trace sh @ [Resolve p]\<rparr>)"

definition sh_mkdir_p :: "'w tools \<Rightarrow> path \<Rightarrow> 'w shell \<Rightarrow> nat \<times> 'w shell" where
  "sh_mkdir_p T p sh =
    (case mkdir_p T p (world sh) of
       (st, w') \<Rightarrow> (st, sh\<lparr>world := w', trace := trace sh @ [Mkdir_p p]\<rparr>))"

definition sh_cp :: "'w tools \<Rightarrow> path \<Rightarrow> path \<Rightarrow> 'w shell \<Rightarrow> nat \<times> 'w shell" where
  "sh_cp T p q sh =
    (case cp T p q (world sh) of
       (st, w') \<Rightarrow> (st, sh\<lparr>world := w', trace := trace sh @ [Cp p q]\<rparr>))"

definition sh_cd :: "'w tools \<Rightarrow> path \<Rightarrow> 'w shell \<Rightarrow> nat \<times> 'w shell" where
  "sh_cd T p sh = (cd T p (world sh), sh\<lparr>trace := trace sh @ [Cd p]\<rparr>)"

definition sh_qcc :: "'w tools \<Rightarrow> path \<Rightarrow> string list \<Rightarrow> 'w shell \<Rightarrow> nat \<times> 'w shell" where
  "sh_qcc T wd args sh =
    (case qcc T wd args (world sh) of
       (st, w') \<Rightarrow> (st, sh\<lparr>world := w', trace := trace sh @ [Qcc args]\<rparr>))"

definition sh_exec :: "'w tools \<Rightarrow> path \<Rightarrow> string \<Rightarrow> 'w shell \<Rightarrow> nat \<times> 'w shell" where
  "sh_exec T wd c sh =
    (case exec T wd c (world sh) of
       (st, w') \<Rightarrow> (st, sh\<lparr>world := w', trace := trace sh @ [Exec c]\<rparr>))"

definition sh_rm_rf :: "'w tools \<Rightarrow> path \<Rightarrow> 'w shell \<Rightarrow> nat \<times> 'w shell" where
  "sh_rm_rf T p sh =
    (case rm_rf T p (world sh) of
       (st, w') \<Rightarrow> (st, sh\<lparr>world := w', trace := trace sh @ [Rm_rf p]\<rparr>))"

text \<open>\<^verbatim>\<open>"${1:-}"\<close>: the first argument, or the empty string when there is none.\<close>

definition arg1 :: "string list \<Rightarrow> string" where
  "arg1 args = (case args of [] \<Rightarrow> [] | a # _ \<Rightarrow> a)"

definition usage :: "string \<Rightarrow> 'w shell \<Rightarrow> nat \<times> 'w shell" where
  "usage script sh = (1, sh\<lparr>stderr := stderr sh @ [''Usage: '' @ script @ '' <case-name>'']\<rparr>)"

text \<open>
  \<^verbatim>\<open>runCases.sh\<close>; \<open>script\<close> is \<^verbatim>\<open>$0\<close> (and \<^verbatim>\<open>${BASH_SOURCE[0]}\<close>), \<open>args\<close> the
  positional parameters. A failed substitution in an assignment ends the script with
  status 1, the status of the failed \<^verbatim>\<open>cd\<close>.
\<close>

definition runCases :: "'w tools \<Rightarrow> string \<Rightarrow> string list \<Rightarrow> 'w \<Rightarrow> nat \<times> 'w shell" where
  "runCases T script args w =
    (let sh = \<lparr>world = w, trace = [], stderr = []\<rparr>
     in if arg1 args = [] then usage script sh
        else
          let CASE_NAME = arg1 args
          in case sh_resolve T (dirname T script) sh of
               (None, sh) \<Rightarrow> (1, sh)
             | (Some SCRIPT_DIR, sh) \<Rightarrow>
          (case sh_resolve T (SCRIPT_DIR @ ''/..'') sh of
               (None, sh) \<Rightarrow> (1, sh)
             | (Some REPO_ROOT, sh) \<Rightarrow>
          (let CASE_DIR = SCRIPT_DIR @ ''/'' @ CASE_NAME;
               CASE_SOURCE = SCRIPT_DIR @ ''/'' @ CASE_NAME @ ''.c''
           in errexit (sh_mkdir_p T CASE_DIR sh) (\<lambda>sh.
              errexit (sh_cp T CASE_SOURCE (CASE_DIR @ ''/'') sh) (\<lambda>sh.
              errexit
                (errexit (sh_cd T REPO_ROOT sh) (\<lambda>sh.
                 sh_qcc T REPO_ROOT
                   [''-I'' @ REPO_ROOT @ ''/src-local'', ''-O2'', ''-Wall'',
                    ''-disable-dimensions'', CASE_SOURCE, ''-o'',
                    CASE_DIR @ ''/'' @ CASE_NAME, ''-lm''] sh)) (\<lambda>sh.
              errexit (sh_cd T CASE_DIR sh) (\<lambda>sh.
              sh_exec T CASE_DIR (''./'' @ CASE_NAME) sh)))))))"

text \<open>\<^verbatim>\<open>cleanup.sh\<close>\<close>

definition cleanup :: "'w tools \<Rightarrow> string \<Rightarrow> string list \<Rightarrow> 'w \<Rightarrow> nat \<times> 'w shell" where
  "cleanup T script args w =
    (let sh = \<lparr>world = w, trace = [], stderr = []\<rparr>
     in if arg1 args = [] then usage script sh
        else
          let CASE_NAME = arg1 args
          in case sh_resolve T (dirname T script) sh of
               (None, sh) \<Rightarrow> (1, sh)
             | (Some SCRIPT_DIR, sh) \<Rightarrow>
          (let CASE_DIR = SCRIPT_DIR @ ''/'' @ CASE_NAME
           in sh_rm_rf T CASE_DIR sh))"

section \<open>Notions used in the properties\<close>

subsection \<open>Simulation\<close>

text \<open>The progress lines among what was written, and the names of the image files
  other than the movie.\<close>

primrec progress_line :: "written \<Rightarrow> bool" where
  "progress_line (Ppm f name n lin spread) = False"
| "progress_line (Stderr_line i tm h m1 m2) = True"

definition progress :: "written list \<Rightarrow> written list" where
  "progress ws = filter progress_line ws"

primrec image_name :: "written \<Rightarrow> string list" where
  "image_name (Ppm f name n lin spread) = (if name = ''f.mp4'' then [] else [name])"
| "image_name (Stderr_line i tm h m1 m2) = []"

definition final_images :: "written list \<Rightarrow> string list" where
  "final_images ws = concat (map image_name ws)"

text \<open>The values \<open>init\<close> gives to \<^verbatim>\<open>kb\<close> for a control parameter.\<close>

definition kb_of :: "real \<Rightarrow> real" where
  "kb_of m = sq (1 + ka * sqrt (1 / D)) * (1 + m)"



text \<open>The framework grants the timestep 1 that \<open>integration\<close> asks for.\<close>

definition unit_dt :: "framework \<Rightarrow> bool" where
  "unit_dt fw = (\<forall>tm. dtnext fw tm 1 = 1)"

definition start :: "sim \<Rightarrow> sim" where
  "start s = s\<lparr>iter := 0, t := 0\<rparr>"

definition grid :: "sim \<Rightarrow> nat \<times> real" where
  "grid s = (N s, L0 s)"

text \<open>A framework and a state to evaluate the model on: no noise, the timestep asked
  for, and a solver that takes one explicit step of the sources in every cell.\<close>

definition fw_demo :: framework where
  "fw_demo =
    \<lparr>noise = (\<lambda>j c. 0),
     dtnext = (\<lambda>tm dtmax. dtmax),
     diffusion = (\<lambda>g f h c r b. (\<lambda>x. f x + h * (r x + b x * f x), \<lparr>mg_i = 1\<rparr>)),
     fmt_g = (\<lambda>x. if x = 0.04 then ''0.04'' else if x = 0.1 then ''0.1''
                   else if x = 0.98 then ''0.98'' else ''0'')\<rparr>"

definition sim_demo :: sim where
  "sim_demo =
    \<lparr>C1 = (\<lambda>c. 1), C2 = (\<lambda>c. 0), mu = 0, kb = 1, dt = 0,
     mgd1 = \<lparr>mg_i = 0\<rparr>, mgd2 = \<lparr>mg_i = 0\<rparr>,
     N = 0, L0 = 0, TOLERANCE = 0, iter = 0, t = 0, nrand = 0, out = []\<rparr>"

subsection \<open>Scripts\<close>

text \<open>
  The arguments of the compiler in \<^verbatim>\<open>runCases.sh\<close>, and the commands the script runs
  when none fails, for the script directory \<open>d\<close>, the repository root and the case
  name \<open>n\<close>.
\<close>

definition compile_args :: "path \<Rightarrow> path \<Rightarrow> string \<Rightarrow> string list" where
  "compile_args rr d n =
    [''-I'' @ rr @ ''/src-local'', ''-O2'', ''-Wall'', ''-disable-dimensions'',
     d @ ''/'' @ n @ ''.c'', ''-o'', (d @ ''/'' @ n) @ ''/'' @ n, ''-lm'']"

definition run_plan :: "'w tools \<Rightarrow> string \<Rightarrow> path \<Rightarrow> path \<Rightarrow> string \<Rightarrow> command list" where
  "run_plan T script d rr n =
    [Resolve (dirname T script), Resolve (d @ ''/..''),
     Mkdir_p (d @ ''/'' @ n),
     Cp (d @ ''/'' @ n @ ''.c'') ((d @ ''/'' @ n) @ ''/''),
     Cd rr, Qcc (compile_args rr d n),
     Cd (d @ ''/'' @ n), Exec (''./'' @ n)]"

definition clean_plan :: "'w tools \<Rightarrow> string \<Rightarrow> path \<Rightarrow> string \<Rightarrow> command list" where
  "clean_plan T script d n = [Resolve (dirname T script), Rm_rf (d @ ''/'' @ n)]"

text \<open>\<open>under p q\<close>: \<open>q\<close> is \<open>p\<close> or lies below the directory \<open>p\<close>.\<close>

definition under :: "path \<Rightarrow> path \<Rightarrow> bool" where
  "under p q = (q = p \<or> prefix (p @ ''/'') q)"

text \<open>
  What is assumed of the programs, for a predicate \<open>present w p\<close> (something exists
  at \<open>p\<close> in the world \<open>w\<close>):
  \<^item> \<^verbatim>\<open>cp file dir/\<close>, when it succeeds, leaves a file of the same name in \<open>dir\<close>;
  \<^item> the compiler, when it succeeds, has written the file named after \<^verbatim>\<open>-o\<close> and has
    removed nothing;
  \<^item> the compiled case, when it succeeds, has removed nothing;
  \<^item> \<^verbatim>\<open>rm -rf p\<close>, when it succeeds, leaves nothing at or below \<open>p\<close>, and when nothing
    is at or below \<open>p\<close> it succeeds and changes nothing.
\<close>

definition cp_copies :: "'w tools \<Rightarrow> ('w \<Rightarrow> path \<Rightarrow> bool) \<Rightarrow> bool" where
  "cp_copies T present =
    (\<forall>d n dir w w'. CHR ''/'' \<notin> set n \<and> cp T (d @ ''/'' @ n) (dir @ ''/'') w = (0, w')
        \<longrightarrow> present w' (dir @ ''/'' @ n))"

definition qcc_builds :: "'w tools \<Rightarrow> ('w \<Rightarrow> path \<Rightarrow> bool) \<Rightarrow> bool" where
  "qcc_builds T present =
    (\<forall>wd xs obj ys w w'. ''-o'' \<notin> set xs \<and> qcc T wd (xs @ [''-o'', obj] @ ys) w = (0, w')
        \<longrightarrow> present w' obj \<and> (\<forall>p. present w p \<longrightarrow> present w' p))"

definition exec_keeps :: "'w tools \<Rightarrow> ('w \<Rightarrow> path \<Rightarrow> bool) \<Rightarrow> bool" where
  "exec_keeps T present =
    (\<forall>wd c w w' p. exec T wd c w = (0, w') \<and> present w p \<longrightarrow> present w' p)"

definition rm_rf_force :: "'w tools \<Rightarrow> ('w \<Rightarrow> path \<Rightarrow> bool) \<Rightarrow> path \<Rightarrow> bool" where
  "rm_rf_force T present p =
    ((\<forall>w w' q. rm_rf T p w = (0, w') \<and> under p q \<longrightarrow> \<not> present w' q) \<and>
     (\<forall>w. (\<forall>q. under p q \<longrightarrow> \<not> present w q) \<longrightarrow> rm_rf T p w = (0, w)))"

text \<open>
  Programs to evaluate the scripts on. The world is the list of the paths that exist;
  the script lies in \<^verbatim>\<open>/repo/simulationCases\<close>.
\<close>

definition last_name :: "path \<Rightarrow> string" where
  "last_name p = rev (takeWhile (\<lambda>c. c \<noteq> CHR ''/'') (rev p))"

fun after_o :: "string list \<Rightarrow> string list" where
  "after_o (a # b # xs) = (if a = ''-o'' then [b] else after_o (b # xs))"
| "after_o xs = []"

definition tools_demo :: "(path list) tools" where
  "tools_demo =
    \<lparr>dirname = (\<lambda>p. ''/repo/simulationCases''),
     resolve = (\<lambda>p w. if p = ''/repo/simulationCases'' \<and> p \<in> set w then Some p
                       else if p = ''/repo/simulationCases/..'' \<and> ''/repo'' \<in> set w
                         then Some ''/repo''
                       else None),
     mkdir_p = (\<lambda>p w. (0, p # w)),
     cp = (\<lambda>p q w. if p \<in> set w then (0, (q @ last_name p) # w) else (1, w)),
     cd = (\<lambda>p w. if p \<in> set w then 0 else 1),
     qcc = (\<lambda>wd args w. if after_o args = [] then (1, w) else (0, after_o args @ w)),
     exec = (\<lambda>wd c w. (0, (wd @ ''/f.mp4'') # w)),
     rm_rf = (\<lambda>p w. (0, filter (\<lambda>q. \<not> under p q) w))\<rparr>"

definition world_demo :: "path list" where
  "world_demo =
    [''/repo'', ''/repo/simulationCases'', ''/repo/simulationCases/keller-segel.c'']"

definition world_built :: "path list" where
  "world_built =
    [''/repo/simulationCases/keller-segel/f.mp4'',
     ''/repo/simulationCases/keller-segel/keller-segel'',
     ''/repo/simulationCases/keller-segel/keller-segel.c'',
     ''/repo/simulationCases/keller-segel'',
     ''/repo'', ''/repo/simulationCases'', ''/repo/simulationCases/keller-segel.c'']"

definition present_demo :: "path list \<Rightarrow> path \<Rightarrow> bool" where
  "present_demo w p = (p \<in> set w)"

section \<open>The simulation: what the events change\<close>

lemma integration_frame:
  "mu (integration fw s) = mu s" "kb (integration fw s) = kb s"
  "N (integration fw s) = N s" "L0 (integration fw s) = L0 s"
  "TOLERANCE (integration fw s) = TOLERANCE s"
  "iter (integration fw s) = iter s" "t (integration fw s) = t s"
  "nrand (integration fw s) = nrand s" "out (integration fw s) = out s"
  "dt (integration fw s) = dtnext fw (t s) 1"
  by (simp_all add: integration_def Let_def split: prod.splits)

lemma init_frame:
  "mu (init fw s) = mu s" "dt (init fw s) = dt s"
  "N (init fw s) = N s" "L0 (init fw s) = L0 s"
  "TOLERANCE (init fw s) = TOLERANCE s"
  "iter (init fw s) = iter s" "t (init fw s) = t s"
  "out (init fw s) = out s" "mgd1 (init fw s) = mgd1 s" "mgd2 (init fw s) = mgd2 s"
  by (simp_all add: init_def Let_def)

lemma init_fields:
  "kb (init fw s) = kb_of (mu s)"
  "C1 (init fw s) = (\<lambda>c. ka)"
  "C2 (init fw s) = (\<lambda>c. kb_of (mu s) / ka + 0.01 * noise fw (nrand s) c)"
  "nrand (init fw s) = nrand s + 1"
  by (simp_all add: init_def Let_def kb_of_def)

lemma movie_frame:
  "mu (movie s) = mu s" "kb (movie s) = kb s" "dt (movie s) = dt s"
  "N (movie s) = N s" "L0 (movie s) = L0 s" "TOLERANCE (movie s) = TOLERANCE s"
  "iter (movie s) = iter s" "t (movie s) = t s" "nrand (movie s) = nrand s"
  "C1 (movie s) = C1 s" "C2 (movie s) = C2 s"
  by (simp_all add: movie_def)

lemma final_frame:
  "mu (final fw s) = mu s" "kb (final fw s) = kb s" "dt (final fw s) = dt s"
  "N (final fw s) = N s" "L0 (final fw s) = L0 s" "TOLERANCE (final fw s) = TOLERANCE s"
  "iter (final fw s) = iter s" "t (final fw s) = t s" "nrand (final fw s) = nrand s"
  "C1 (final fw s) = C1 s" "C2 (final fw s) = C2 s"
  by (simp_all add: final_def Let_def)

lemma events_frame:
  "mu (events fw s) = mu s" "N (events fw s) = N s" "L0 (events fw s) = L0 s"
  "TOLERANCE (events fw s) = TOLERANCE s"
  "iter (events fw s) = iter s" "t (events fw s) = t s"
  "dt (events fw s) = dtnext fw (t s) 1"
  by (simp_all add: events_def Let_def integration_frame init_frame movie_frame final_frame)


lemma integration_fields:
  "C1 (integration fw s) =
     fst (diffusion fw (N s, L0 s, TOLERANCE s) (C1 s) (dtnext fw (t s) 1) None
            (\<lambda>c. k * ka) (\<lambda>c. k * (C1 s c * C2 s c - kb s - 1)))"
  "C2 (integration fw s) =
     fst (diffusion fw (N s, L0 s, TOLERANCE s) (C2 s) (dtnext fw (t s) 1) (Some (D, D))
            (\<lambda>c. k * kb s * C1 (integration fw s) c)
            (\<lambda>c. - k * sq (C1 (integration fw s) c)))"
  by (simp_all add: integration_def Let_def split: prod.splits)

lemma iterations_iter: "iter (iterations fw n s) = iter s + n"
  by (induction n) (simp_all add: advance_def events_frame)

lemma iterations_mu: "mu (iterations fw n s) = mu s"
  by (induction n) (simp_all add: advance_def events_frame)

lemma events_out_all:
  "out (events fw s) =
     out s @
     (if movie_due (iter s)
      then [Ppm (C1 s) ''f.mp4'' 200 True 2,
            Stderr_line (int (iter s)) (t s) (dt s) (mg_i (mgd1 s)) (mg_i (mgd2 s))]
      else []) @
     (if t s = 3000
      then [Ppm (if iter s = 0 then (\<lambda>c. ka) else C1 s)
              (''mu-'' @ fmt_g fw (mu s) @ ''.png'') 200 True 2]
      else [])"
  by (simp add: events_def Let_def integration_frame movie_def final_def init_frame
        init_fields movie_due_def)

lemma final_images_append: "final_images (xs @ ys) = final_images xs @ final_images ys"
  by (simp add: final_images_def)

lemma final_images_events:
  "final_images (out (events fw s)) =
     final_images (out s) @ (if t s = 3000 then [''mu-'' @ fmt_g fw (mu s) @ ''.png''] else [])"
  by (simp add: events_out_all final_images_append) (simp add: final_images_def)

lemma progress_events:
  "progress (out (events fw s)) =
     progress (out s) @
     (if movie_due (iter s)
      then [Stderr_line (int (iter s)) (t s) (dt s) (mg_i (mgd1 s)) (mg_i (mgd2 s))]
      else [])"
  by (simp add: events_out_all progress_def)

lemma iterations_shift:
  "iterations fw n (advance (events fw s)) = iterations fw (Suc n) s"
  by (induction n) simp_all

lemma iterations_t:
  assumes "unit_dt fw" "t s = real (iter s)"
  shows "t (iterations fw n s) = real (iter s + n)"
proof (induction n)
  case 0
  show ?case using assms(2) by simp
next
  case (Suc n)
  have "dtnext fw x 1 = 1" for x using assms(1) by (simp add: unit_dt_def)
  then show ?case using Suc by (simp add: advance_def events_frame)
qed

lemma iterations_grid: "grid (iterations fw n s) = grid s"
  by (induction n) (simp_all add: grid_def advance_def events_frame)

lemma iterations_images:
  assumes "unit_dt fw" "t s = real (iter s)" "iter s + n \<le> 3000"
  shows "final_images (out (iterations fw n s)) = final_images (out s)"
  using assms(3)
proof (induction n)
  case 0
  show ?case by simp
next
  case (Suc n)
  have "t (iterations fw n s) \<noteq> 3000"
    using Suc.prems by (simp add: iterations_t [OF assms(1,2)])
  then show ?case
    using Suc by (simp add: advance_def final_images_events)
qed

lemma time_loop_unit:
  assumes "unit_dt fw"
  shows "t s = real (iter s) \<Longrightarrow> iter s \<le> 3000 \<Longrightarrow> 3001 - iter s \<le> fuel \<Longrightarrow>
         time_loop fuel fw s = Some (events fw (iterations fw (3000 - iter s) s))"
proof (induction fuel arbitrary: s)
  case 0
  then show ?case by simp
next
  case (Suc fuel)
  show ?case
  proof (cases "iter s = 3000")
    case True
    then show ?thesis using Suc.prems by simp
  next
    case False
    let ?s = "advance (events fw s)"
    have ne: "t s \<noteq> 3000" using False Suc.prems by simp
    have d: "dtnext fw (t s) 1 = 1" using assms by (simp add: unit_dt_def)
    have a: "t ?s = real (iter ?s)" "iter ?s = Suc (iter s)"
      using Suc.prems(1) d by (simp_all add: advance_def events_frame)
    have "time_loop fuel fw ?s = Some (events fw (iterations fw (3000 - iter ?s) ?s))"
      using a False Suc.prems by (intro Suc.IH) simp_all
    moreover have "3000 - iter s = Suc (3000 - iter ?s)"
      using a False Suc.prems by simp
    ultimately show ?thesis
      using ne by (simp add: Let_def iterations_shift del: iterations.simps)
  qed
qed

lemma run_unit:
  assumes "unit_dt fw" "3001 \<le> fuel"
  shows "run fuel fw s = Some (events fw (iterations fw 3000 (start s)))"
  using time_loop_unit [OF assms(1), of "start s" fuel] assms(2)
  by (simp add: run_def start_def)

lemma run_result:
  fixes fw :: framework and s :: sim
  assumes "unit_dt fw"
  defines "s' \<equiv> events fw (iterations fw 3000 (start s))"
  shows "mu s' = mu s" "grid s' = grid s" "TOLERANCE s' = TOLERANCE s"
    "final_images (out s') = final_images (out s) @ [''mu-'' @ fmt_g fw (mu s) @ ''.png'']"
proof -
  have st: "t (start s) = real (iter (start s))" "iter (start s) = 0"
    by (simp_all add: start_def)
  have tm: "t (iterations fw 3000 (start s)) = 3000"
    using iterations_t [OF assms(1) st(1), of 3000] st(2) by simp
  show "mu s' = mu s"
    by (simp add: s'_def events_frame iterations_mu start_def)
  show "grid s' = grid s"
    using iterations_grid [of fw 3000 "start s"]
    by (simp add: s'_def grid_def events_frame start_def)
  show "TOLERANCE s' = TOLERANCE s"
  proof -
    have "TOLERANCE (iterations fw n x) = TOLERANCE x" for n x
      by (induction n) (simp_all add: advance_def events_frame)
    then show ?thesis by (simp add: s'_def events_frame start_def)
  qed
  have "final_images (out (iterations fw 3000 (start s))) = final_images (out (start s))"
    using st by (intro iterations_images [OF assms(1)]) simp_all
  then show "final_images (out s') =
      final_images (out s) @ [''mu-'' @ fmt_g fw (mu s) @ ''.png'']"
    using tm by (simp add: s'_def final_images_events iterations_mu) (simp add: start_def)
qed

subsection \<open>The demonstration framework\<close>



section \<open>The stationary solution\<close>

subsection \<open>Rounding to a double\<close>
























































subsection \<open>The stationary state in double arithmetic\<close>






















section \<open>The two case files\<close>

lemma init_br_eq: "init_br = init"
  by (intro ext) (simp add: init_br_def init_def)

lemma movie_br_eq: "movie_br = movie"
  by (intro ext) (simp add: movie_br_def movie_def)

lemma final_br_eq: "final_br = final"
  by (intro ext) (simp add: final_br_def final_def)

lemma integration_br_eq: "integration_br = integration"
  by (intro ext) (simp add: integration_br_def integration_def)

lemma events_br_eq: "events_br = events"
  by (intro ext)
     (simp add: events_br_def events_def init_br_eq movie_br_eq final_br_eq integration_br_eq
        Let_def)

lemma time_loop_br_eq: "time_loop_br fuel fw s = time_loop fuel fw s"
  by (induction fuel arbitrary: s) (simp_all add: events_br_eq Let_def)

lemma run_br_eq: "run_br fuel fw s = run fuel fw s"
  by (simp add: run_br_def run_def time_loop_br_eq)

lemma main_br_eq: "main_br fuel fw s = main fuel fw s"
  by (simp add: main_br_def main_def run_br_eq)

text \<open>
  Claim C2. The brusselator case file and the keller-segel case file are the same
  program: for the same framework (the same noise, timesteps and solver) and the same
  starting state their \<open>init\<close>, \<open>movie\<close>, \<open>final\<close> and \<open>integration\<close> events are equal
  functions, and \<open>main\<close> sets the same grid, makes the same three runs and ends in the
  same state, which contains everything written (movie frames, progress lines, final
  images).
\<close>

theorem case_files_equivalent:
  "init_br fw s = init fw s \<and> movie_br s = movie s \<and> final_br fw s = final fw s \<and>
   integration_br fw s = integration fw s \<and> events_br fw s = events fw s \<and>
   run_br fuel fw s = run fuel fw s \<and> main_br fuel fw s = main fuel fw s"
  by (simp add: init_br_eq movie_br_eq final_br_eq integration_br_eq events_br_eq
        run_br_eq main_br_eq)

theorem case_files_equivalent_witness:
  "main_br 2 fw_demo sim_demo = main 2 fw_demo sim_demo \<and>
   out (events_br fw_demo (sim_demo\<lparr>iter := 1\<rparr>)) =
     [Ppm (\<lambda>c. 1) ''f.mp4'' 200 True 2, Stderr_line 1 0 0 0 0]"
  using case_files_equivalent [of fw_demo sim_demo 2]
    case_files_equivalent [of fw_demo "sim_demo\<lparr>iter := 1\<rparr>" 2]
  by (simp add: events_out_all movie_due_def sim_demo_def)

section \<open>Progress lines\<close>

theorem progress_line_missing_counterexample:
  "progress (out (events fw_demo sim_demo)) = [] \<and>
   progress (out (events fw_demo (sim_demo\<lparr>iter := 2, t := 2\<rparr>))) = []"
  by (simp add: progress_events movie_due_def) (simp add: sim_demo_def progress_def)

lemma movie_due_iff: "movie_due i = (\<exists>j. i = 1 + 10 * j)"
proof
  assume "movie_due i"
  then have "1 \<le> i" "(i - 1) mod 10 = 0" by (simp_all add: movie_due_def)
  then have "i = 1 + 10 * ((i - 1) div 10)" by presburger
  then show "\<exists>j. i = 1 + 10 * j" ..
next
  assume "\<exists>j. i = 1 + 10 * j"
  then show "movie_due i" by (auto simp: movie_due_def)
qed

text \<open>
  Claim C3, amended. A pass of the time loop writes a progress line exactly when the
  \<open>movie\<close> event is due, at the iterations \<open>i = 1, 11, 21, ...\<close>; it then writes one line,
  with the iteration, the time, the timestep and the two solver iteration counts. At
  every other iteration (0 among them) it writes none.
\<close>

theorem progress_line_every_tenth_iteration:
  "progress (out (events fw s)) =
     progress (out s) @
     (if movie_due (iter s)
      then [Stderr_line (int (iter s)) (t s) (dt s) (mg_i (mgd1 s)) (mg_i (mgd2 s))]
      else []) \<and>
   movie_due i = (\<exists>j. i = 1 + 10 * j)"
  using progress_events [of fw s] movie_due_iff [of i] by simp

theorem progress_line_every_tenth_iteration_witness:
  "progress (out (events fw_demo (sim_demo\<lparr>iter := 11, t := 11\<rparr>))) =
     [Stderr_line 11 11 0 0 0] \<and>
   progress (out (events fw_demo (sim_demo\<lparr>iter := 12, t := 12\<rparr>))) = []"
  using progress_line_every_tenth_iteration [of fw_demo "sim_demo\<lparr>iter := 11, t := 11\<rparr>" 11]
    progress_line_every_tenth_iteration [of fw_demo "sim_demo\<lparr>iter := 12, t := 12\<rparr>" 12]
  by (simp add: movie_due_def) (simp add: sim_demo_def progress_def)

section \<open>The order of the two solves\<close>

text \<open>
  Claim C10. In one integration step (of either case file) the second solve, for \<open>C2\<close>,
  takes its source \<open>r = k kb C1\<close> and its coefficient \<open>beta = - k C1\<^sup>2\<close> from the field \<open>C1\<close>
  that the first solve of the same step has just returned, not from \<open>C1\<close> as it was
  before the step.
\<close>

theorem second_solve_reads_updated_C1:
  "C1 (integration fw s) =
     fst (diffusion fw (N s, L0 s, TOLERANCE s) (C1 s) (dtnext fw (t s) 1) None
            (\<lambda>c. k * ka) (\<lambda>c. k * (C1 s c * C2 s c - kb s - 1))) \<and>
   C2 (integration fw s) =
     fst (diffusion fw (N s, L0 s, TOLERANCE s) (C2 s) (dtnext fw (t s) 1) (Some (D, D))
            (\<lambda>c. k * kb s * C1 (integration fw s) c)
            (\<lambda>c. - k * sq (C1 (integration fw s) c))) \<and>
   integration_br fw s = integration fw s"
  using integration_fields [of fw s] by (simp add: integration_br_eq)

theorem second_solve_reads_updated_C1_witness:
  "C1 sim_demo (0, 0) = 1 \<and>
   C1 (integration fw_demo sim_demo) (0, 0) = 3.5 \<and>
   C2 (integration fw_demo sim_demo) (0, 0) = 3.5 \<and>
   fst (diffusion fw_demo (0, 0, 0) (C2 sim_demo) 1 (Some (D, D))
          (\<lambda>c. k * kb sim_demo * C1 sim_demo c) (\<lambda>c. - k * sq (C1 sim_demo c))) (0, 0) = 1"
proof -
  note th = second_solve_reads_updated_C1 [of fw_demo sim_demo]
  have a: "C1 (integration fw_demo sim_demo) = (\<lambda>c. 3.5)"
    by (subst th [THEN conjunct1]) (simp add: fw_demo_def sim_demo_def k_def ka_def)
  have b: "C2 (integration fw_demo sim_demo) = (\<lambda>c. 3.5)"
    by (subst th [THEN conjunct2, THEN conjunct1], subst a)
       (simp add: fw_demo_def sim_demo_def k_def sq_def)
  show ?thesis
    by (simp add: a b) (simp add: fw_demo_def sim_demo_def k_def sq_def)
qed

section \<open>The three runs\<close>

lemma first_pass: "events fw (start s) = integration fw (init fw (start s))"
  by (simp add: events_def start_def movie_due_def)

lemma run_Suc:
  "run (Suc f) fw s = time_loop f fw (advance (integration fw (init fw (start s))))"
  using first_pass [of fw s] by (simp add: run_def start_def)

lemma init_overwrites: "init fw (s\<lparr>C1 := a, C2 := b, kb := c\<rparr>) = init fw s"
  by (simp add: init_def Let_def)

lemma run_forgets_fields: "run fuel fw (s\<lparr>C1 := a, C2 := b, kb := c\<rparr>) = run fuel fw s"
proof (cases fuel)
  case 0
  then show ?thesis by (simp add: run_def)
next
  case (Suc f)
  have "start (s\<lparr>C1 := a, C2 := b, kb := c\<rparr>) = (start s)\<lparr>C1 := a, C2 := b, kb := c\<rparr>"
    by (simp add: start_def)
  then show ?thesis by (simp add: Suc run_Suc init_overwrites)
qed

lemma main_unit:
  fixes fw :: framework and s :: sim
  assumes "unit_dt fw" "3001 \<le> fuel"
  defines "s0 \<equiv> s\<lparr>N := 128, L0 := 64, TOLERANCE := 0.0001\<rparr>"
  defines "s1 \<equiv> events fw (iterations fw 3000 (start (s0\<lparr>mu := 0.04\<rparr>)))"
  defines "s2 \<equiv> events fw (iterations fw 3000 (start (s1\<lparr>mu := 0.1\<rparr>)))"
  defines "s3 \<equiv> events fw (iterations fw 3000 (start (s2\<lparr>mu := 0.98\<rparr>)))"
  shows "run fuel fw (s0\<lparr>mu := 0.04\<rparr>) = Some s1"
    and "run fuel fw (s1\<lparr>mu := 0.1\<rparr>) = Some s2"
    and "run fuel fw (s2\<lparr>mu := 0.98\<rparr>) = Some s3"
    and "main fuel fw s = Some s3"
    and "grid s1 = (128, 64)" and "grid s2 = (128, 64)" and "grid s3 = (128, 64)"
    and "final_images (out s3) =
           final_images (out s) @
           [''mu-'' @ fmt_g fw 0.04 @ ''.png'', ''mu-'' @ fmt_g fw 0.1 @ ''.png'',
            ''mu-'' @ fmt_g fw 0.98 @ ''.png'']"
proof -
  note r = run_unit [OF assms(1,2)] and p = run_result [OF assms(1)]
  show r1: "run fuel fw (s0\<lparr>mu := 0.04\<rparr>) = Some s1" by (simp add: r s1_def)
  show r2: "run fuel fw (s1\<lparr>mu := 0.1\<rparr>) = Some s2" by (simp add: r s2_def)
  show r3: "run fuel fw (s2\<lparr>mu := 0.98\<rparr>) = Some s3" by (simp add: r s3_def)
  show "main fuel fw s = Some s3"
    using r1 r2 r3 by (simp add: main_def s0_def)
  show g1: "grid s1 = (128, 64)"
    unfolding s1_def by (simp add: p(2)) (simp add: grid_def s0_def)
  show g2: "grid s2 = (128, 64)"
    unfolding s2_def using g1 by (simp add: p(2)) (simp add: grid_def)
  show "grid s3 = (128, 64)"
    unfolding s3_def using g2 by (simp add: p(2)) (simp add: grid_def)
  have "final_images (out s1) = final_images (out s) @ [''mu-'' @ fmt_g fw 0.04 @ ''.png'']"
    unfolding s1_def by (simp add: p(4)) (simp add: s0_def)
  moreover have "final_images (out s2) =
      final_images (out s1) @ [''mu-'' @ fmt_g fw 0.1 @ ''.png'']"
    unfolding s2_def by (simp add: p(4))
  moreover have "final_images (out s3) =
      final_images (out s2) @ [''mu-'' @ fmt_g fw 0.98 @ ''.png'']"
    unfolding s3_def by (simp add: p(4))
  ultimately show "final_images (out s3) =
           final_images (out s) @
           [''mu-'' @ fmt_g fw 0.04 @ ''.png'', ''mu-'' @ fmt_g fw 0.1 @ ''.png'',
            ''mu-'' @ fmt_g fw 0.98 @ ''.png'']"
    by simp
qed

text \<open>
  Claim C7. When the framework grants the timestep asked for, \<open>main\<close> makes exactly three
  runs one after the other, with \<open>mu\<close> set to 0.04, 0.1 and 0.98 before each: every run
  returns, the next one starts from the state the previous one left, and the final
  images written are those of the three runs, in this order. Every run begins with the
  \<open>init\<close> event at iteration 0, which overwrites \<open>C1\<close>, \<open>C2\<close> and \<open>kb\<close> in full, so that no
  run depends on the fields or on the \<open>kb\<close> that the run before it left.
\<close>

theorem three_runs_each_reinitialised:
  assumes "unit_dt fw" "3001 \<le> fuel"
  shows "(\<exists>s1 s2 s3.
      run fuel fw (s\<lparr>N := 128, L0 := 64, TOLERANCE := 0.0001, mu := 0.04\<rparr>) = Some s1 \<and>
      run fuel fw (s1\<lparr>mu := 0.1\<rparr>) = Some s2 \<and>
      run fuel fw (s2\<lparr>mu := 0.98\<rparr>) = Some s3 \<and>
      main fuel fw s = Some s3 \<and>
      final_images (out s3) =
        final_images (out s) @
        [''mu-'' @ fmt_g fw 0.04 @ ''.png'', ''mu-'' @ fmt_g fw 0.1 @ ''.png'',
         ''mu-'' @ fmt_g fw 0.98 @ ''.png'']) \<and>
    run (Suc f) fw x = time_loop f fw (advance (integration fw (init fw (start x)))) \<and>
    C1 (init fw x) = (\<lambda>c. ka) \<and> kb (init fw x) = kb_of (mu x) \<and>
    C2 (init fw x) = (\<lambda>c. kb_of (mu x) / ka + 0.01 * noise fw (nrand x) c) \<and>
    init fw (x\<lparr>C1 := a, C2 := b, kb := c\<rparr>) = init fw x \<and>
    run fuel fw (x\<lparr>C1 := a, C2 := b, kb := c\<rparr>) = run fuel fw x"
proof -
  have "\<exists>s1 s2 s3.
      run fuel fw (s\<lparr>N := 128, L0 := 64, TOLERANCE := 0.0001, mu := 0.04\<rparr>) = Some s1 \<and>
      run fuel fw (s1\<lparr>mu := 0.1\<rparr>) = Some s2 \<and>
      run fuel fw (s2\<lparr>mu := 0.98\<rparr>) = Some s3 \<and>
      main fuel fw s = Some s3 \<and>
      final_images (out s3) =
        final_images (out s) @
        [''mu-'' @ fmt_g fw 0.04 @ ''.png'', ''mu-'' @ fmt_g fw 0.1 @ ''.png'',
         ''mu-'' @ fmt_g fw 0.98 @ ''.png'']"
    using main_unit(1,2,3,4,8) [OF assms, of s] by blast
  then show ?thesis
    by (simp add: run_Suc init_fields init_overwrites run_forgets_fields)
qed

theorem three_runs_each_reinitialised_witness:
  "unit_dt fw_demo \<and> (3001 :: nat) \<le> 3001 \<and>
   (\<exists>s3. main 3001 fw_demo sim_demo = Some s3 \<and>
      final_images (out s3) = [''mu-0.04.png'', ''mu-0.1.png'', ''mu-0.98.png'']) \<and>
   C1 (init fw_demo sim_demo) = (\<lambda>c. 4.5)"
proof -
  have u: "unit_dt fw_demo" by (simp add: unit_dt_def fw_demo_def)
  have n: "fmt_g fw_demo (1 / 25) = ''0.04''" "fmt_g fw_demo (1 / 10) = ''0.1''"
    "fmt_g fw_demo (49 / 50) = ''0.98''"
    by (simp_all add: fw_demo_def)
  have o: "final_images (out sim_demo) = []" by (simp add: sim_demo_def final_images_def)
  show ?thesis
    using three_runs_each_reinitialised [OF u order_refl, THEN conjunct1, of sim_demo]
    by (auto simp: u n o ka_def init_fields)
qed

section \<open>The grid\<close>

text \<open>
  Claim C8. \<open>main\<close> sets the grid once, to 128 cells in each direction over a domain of
  size 64, before the first run. When the framework grants the timestep asked for, each
  of the three runs returns after the pass at iteration 3000, and in every pass of each
  run the grid is still the one \<open>main\<close> has set.
\<close>

theorem grid_fixed_for_all_runs:
  assumes "unit_dt fw" "3001 \<le> fuel"
  shows "\<exists>s1 s2 s3.
      run fuel fw (s\<lparr>N := 128, L0 := 64, TOLERANCE := 0.0001, mu := 0.04\<rparr>) = Some s1 \<and>
      run fuel fw (s1\<lparr>mu := 0.1\<rparr>) = Some s2 \<and>
      run fuel fw (s2\<lparr>mu := 0.98\<rparr>) = Some s3 \<and>
      main fuel fw s = Some s3 \<and>
      s1 = events fw (iterations fw 3000
             (start (s\<lparr>N := 128, L0 := 64, TOLERANCE := 0.0001, mu := 0.04\<rparr>))) \<and>
      s2 = events fw (iterations fw 3000 (start (s1\<lparr>mu := 0.1\<rparr>))) \<and>
      s3 = events fw (iterations fw 3000 (start (s2\<lparr>mu := 0.98\<rparr>))) \<and>
      grid (iterations fw n
             (start (s\<lparr>N := 128, L0 := 64, TOLERANCE := 0.0001, mu := 0.04\<rparr>))) = (128, 64) \<and>
      grid (iterations fw n (start (s1\<lparr>mu := 0.1\<rparr>))) = (128, 64) \<and>
      grid (iterations fw n (start (s2\<lparr>mu := 0.98\<rparr>))) = (128, 64) \<and>
      grid s3 = (128, 64)"
proof -
  note m = main_unit [OF assms, of s]
  have g: "grid (iterations fw n (start (y\<lparr>mu := v\<rparr>))) = grid y" for y v
    by (simp add: iterations_grid) (simp add: grid_def start_def)
  have "grid (s\<lparr>N := 128, L0 := 64, TOLERANCE := 0.0001\<rparr>) = (128, 64)"
    by (simp add: grid_def)
  then show ?thesis
    using m g by simp
qed

theorem grid_fixed_for_all_runs_witness:
  "unit_dt fw_demo \<and> (3001 :: nat) \<le> 3001 \<and>
   grid (iterations fw_demo 7
           (start (sim_demo\<lparr>N := 128, L0 := 64, TOLERANCE := 0.0001, mu := 0.04\<rparr>))) = (128, 64) \<and>
   (\<exists>s3. main 3001 fw_demo sim_demo = Some s3 \<and> grid s3 = (128, 64))"
proof -
  have u: "unit_dt fw_demo" by (simp add: unit_dt_def fw_demo_def)
  show ?thesis
    using grid_fixed_for_all_runs [OF u order_refl, of sim_demo 7]
    by (auto simp: u)
qed

section \<open>The scripts\<close>

lemma usage_runCases:
  "arg1 args = [] \<Longrightarrow>
   runCases T script args w =
     (1, \<lparr>world = w, trace = [], stderr = [''Usage: '' @ script @ '' <case-name>'']\<rparr>)"
  by (simp add: runCases_def usage_def)

lemma usage_cleanup:
  "arg1 args = [] \<Longrightarrow>
   cleanup T script args w =
     (1, \<lparr>world = w, trace = [], stderr = [''Usage: '' @ script @ '' <case-name>'']\<rparr>)"
  by (simp add: cleanup_def usage_def)

text \<open>
  Claim C4. Called with no argument, or with an empty first argument, both scripts end
  with status 1, having written the usage line to standard error and nothing else; no
  command has run and the world is as it was.
\<close>

theorem no_argument_is_usage_error:
  "runCases T script [] w =
     (1, \<lparr>world = w, trace = [], stderr = [''Usage: '' @ script @ '' <case-name>'']\<rparr>) \<and>
   runCases T script ([] # rest) w =
     (1, \<lparr>world = w, trace = [], stderr = [''Usage: '' @ script @ '' <case-name>'']\<rparr>) \<and>
   cleanup T script [] w =
     (1, \<lparr>world = w, trace = [], stderr = [''Usage: '' @ script @ '' <case-name>'']\<rparr>) \<and>
   cleanup T script ([] # rest) w =
     (1, \<lparr>world = w, trace = [], stderr = [''Usage: '' @ script @ '' <case-name>'']\<rparr>)"
  by (simp add: usage_runCases usage_cleanup arg1_def)

theorem no_argument_is_usage_error_witness:
  "runCases tools_demo ''./runCases.sh'' [] world_demo =
     (1, \<lparr>world = world_demo, trace = [], stderr = [''Usage: ./runCases.sh <case-name>'']\<rparr>) \<and>
   cleanup tools_demo ''./cleanup.sh'' [] world_demo =
     (1, \<lparr>world = world_demo, trace = [], stderr = [''Usage: ./cleanup.sh <case-name>'']\<rparr>)"
  using no_argument_is_usage_error [of tools_demo "''./runCases.sh''" world_demo "[]"]
    no_argument_is_usage_error [of tools_demo "''./cleanup.sh''" world_demo "[]"]
  by simp

lemma runCases_steps:
  assumes "nm \<noteq> []"
    and "resolve T (dirname T script) w = Some d"
    and "resolve T (d @ ''/..'') w = Some rr"
    and "mkdir_p T (d @ ''/'' @ nm) w = (c1, w1)"
    and "cp T (d @ ''/'' @ nm @ ''.c'') ((d @ ''/'' @ nm) @ ''/'') w1 = (c2, w2)"
    and "cd T rr w2 = c3"
    and "qcc T rr (compile_args rr d nm) w2 = (c4, w3)"
    and "cd T (d @ ''/'' @ nm) w3 = c5"
    and "exec T (d @ ''/'' @ nm) (''./'' @ nm) w3 = (c6, w4)"
  shows "runCases T script (nm # rest) w =
      (if c1 \<noteq> 0 then (c1, \<lparr>world = w1, trace = take 3 (run_plan T script d rr nm), stderr = []\<rparr>)
       else if c2 \<noteq> 0 then (c2, \<lparr>world = w2, trace = take 4 (run_plan T script d rr nm), stderr = []\<rparr>)
       else if c3 \<noteq> 0 then (c3, \<lparr>world = w2, trace = take 5 (run_plan T script d rr nm), stderr = []\<rparr>)
       else if c4 \<noteq> 0 then (c4, \<lparr>world = w3, trace = take 6 (run_plan T script d rr nm), stderr = []\<rparr>)
       else if c5 \<noteq> 0 then (c5, \<lparr>world = w3, trace = take 7 (run_plan T script d rr nm), stderr = []\<rparr>)
       else (c6, \<lparr>world = w4, trace = run_plan T script d rr nm, stderr = []\<rparr>))"
  using assms
  by (simp add: runCases_def arg1_def sh_resolve_def sh_mkdir_p_def sh_cp_def sh_cd_def
        sh_qcc_def sh_exec_def errexit_def run_plan_def compile_args_def Let_def)

lemma cleanup_steps:
  assumes "nm \<noteq> []"
    and "resolve T (dirname T script) w = Some d"
    and "rm_rf T (d @ ''/'' @ nm) w = (c, w')"
  shows "cleanup T script (nm # rest) w =
           (c, \<lparr>world = w', trace = clean_plan T script d nm, stderr = []\<rparr>)"
  using assms
  by (simp add: cleanup_def arg1_def sh_resolve_def sh_rm_rf_def clean_plan_def Let_def)

lemma resolve_fails:
  assumes "nm \<noteq> []" "resolve T (dirname T script) w = None"
  shows "runCases T script (nm # rest) w =
           (1, \<lparr>world = w, trace = [Resolve (dirname T script)], stderr = []\<rparr>)"
    and "cleanup T script (nm # rest) w =
           (1, \<lparr>world = w, trace = [Resolve (dirname T script)], stderr = []\<rparr>)"
  using assms
  by (simp_all add: runCases_def cleanup_def arg1_def sh_resolve_def Let_def)



lemma demo_run:
  "runCases tools_demo ''./runCases.sh'' [''keller-segel''] world_demo =
     (0, \<lparr>world = world_built,
          trace = run_plan tools_demo ''./runCases.sh'' ''/repo/simulationCases'' ''/repo''
                    ''keller-segel'',
          stderr = []\<rparr>)"
  by (simp add: runCases_def arg1_def sh_resolve_def sh_mkdir_p_def sh_cp_def sh_cd_def
        sh_qcc_def sh_exec_def errexit_def run_plan_def compile_args_def Let_def
        tools_demo_def world_demo_def world_built_def last_name_def)

lemma demo_clean:
  "cleanup tools_demo ''./cleanup.sh'' [''keller-segel''] world_built =
     (0, \<lparr>world = world_demo,
          trace = clean_plan tools_demo ''./cleanup.sh'' ''/repo/simulationCases''
                    ''keller-segel'',
          stderr = []\<rparr>)"
  by (simp add: cleanup_def arg1_def sh_resolve_def sh_rm_rf_def clean_plan_def Let_def
        tools_demo_def world_demo_def world_built_def under_def)


subsection \<open>The build\<close>

lemma last_name_plain: "CHR ''/'' \<notin> set n \<Longrightarrow> last_name (d @ CHR ''/'' # n) = n"
proof -
  assume a: "CHR ''/'' \<notin> set n"
  have "takeWhile (\<lambda>c. c \<noteq> CHR ''/'') (rev n @ CHR ''/'' # rev d) = rev n"
    using a by (subst takeWhile_append2) auto
  then show ?thesis by (simp add: last_name_def)
qed

lemma after_o_found:
  "''-o'' \<notin> set xs \<Longrightarrow> after_o (xs @ ''-o'' # obj # ys) = [obj]"
proof (induction xs)
  case Nil
  show ?case by simp
next
  case (Cons a xs)
  obtain b zs where e: "xs @ ''-o'' # obj # ys = b # zs"
    by (cases "xs @ ''-o'' # obj # ys") auto
  have "after_o (a # b # zs) = after_o (b # zs)"
    using Cons.prems by auto
  then show ?case using Cons e by simp
qed

lemma cp_copies_demo: "cp_copies tools_demo present_demo"
  by (auto simp: cp_copies_def tools_demo_def present_demo_def last_name_plain
           split: if_splits)

lemma qcc_builds_demo: "qcc_builds tools_demo present_demo"
  by (auto simp: qcc_builds_def tools_demo_def present_demo_def after_o_found)

lemma exec_keeps_demo: "exec_keeps tools_demo present_demo"
  by (auto simp: exec_keeps_def tools_demo_def present_demo_def)

lemma runCases_success:
  assumes "nm \<noteq> []" "runCases T script (nm # rest) w = (0, sh)"
  obtains d rr w1 w2 w3 where
    "resolve T (dirname T script) w = Some d"
    "resolve T (d @ ''/..'') w = Some rr"
    "mkdir_p T (d @ ''/'' @ nm) w = (0, w1)"
    "cp T (d @ ''/'' @ nm @ ''.c'') ((d @ ''/'' @ nm) @ ''/'') w1 = (0, w2)"
    "cd T rr w2 = 0"
    "qcc T rr (compile_args rr d nm) w2 = (0, w3)"
    "cd T (d @ ''/'' @ nm) w3 = 0"
    "exec T (d @ ''/'' @ nm) (''./'' @ nm) w3 = (0, world sh)"
    "trace sh = run_plan T script d rr nm" "stderr sh = []"
proof -
  obtain d where r1: "resolve T (dirname T script) w = Some d"
    using assms resolve_fails(1) [of nm T script w rest] by (cases "resolve T (dirname T script) w") auto
  obtain rr where r2: "resolve T (d @ ''/..'') w = Some rr"
    using assms r1
    by (cases "resolve T (d @ ''/..'') w")
       (auto simp: runCases_def arg1_def sh_resolve_def Let_def)
  obtain c1 w1 where m: "mkdir_p T (d @ ''/'' @ nm) w = (c1, w1)" by fastforce
  obtain c2 w2 where c: "cp T (d @ ''/'' @ nm @ ''.c'') ((d @ ''/'' @ nm) @ ''/'') w1 = (c2, w2)"
    by fastforce
  obtain c4 w3 where q: "qcc T rr (compile_args rr d nm) w2 = (c4, w3)" by fastforce
  obtain c6 w4 where x: "exec T (d @ ''/'' @ nm) (''./'' @ nm) w3 = (c6, w4)" by fastforce
  note st = runCases_steps [OF assms(1) r1 r2 m c refl q refl x, of rest]
  have z: "c1 = 0" "c2 = 0" "cd T rr w2 = 0" "c4 = 0" "cd T (d @ ''/'' @ nm) w3 = 0" "c6 = 0"
    "sh = \<lparr>world = w4, trace = run_plan T script d rr nm, stderr = []\<rparr>"
    using st assms(2) by (auto split: if_splits)
  show thesis
    using that [OF r1 r2 _ _ z(3) _ z(5)] m c q x z by simp
qed

text \<open>
  Claim C5. When \<^verbatim>\<open>runCases.sh\<close>, called with a case name \<open>nm\<close> (not empty, without
  \<^verbatim>\<open>/\<close>), ends with status 0, it has run, in this order and each in the world the
  previous one left: \<^verbatim>\<open>mkdir -p\<close> of the output directory \<open>d/nm\<close>, the copy of
  \<open>d/nm.c\<close> into it, the compiler in the repository root with output \<open>d/nm/nm\<close>, and
  \<open>./nm\<close> in the output directory. If the copy leaves the file in the directory, the
  compiler writes its output and removes nothing, and the compiled case removes
  nothing, the output directory then contains the copy \<open>nm.c\<close> and the executable \<open>nm\<close>.
\<close>

theorem build_copies_compiles_runs:
  assumes "nm \<noteq> []" "CHR ''/'' \<notin> set nm"
    and "cp_copies T present" "qcc_builds T present" "exec_keeps T present"
    and "runCases T script (nm # rest) w = (0, sh)"
  shows "\<exists>d rr w1 w2 w3.
      resolve T (dirname T script) w = Some d \<and>
      resolve T (d @ ''/..'') w = Some rr \<and>
      mkdir_p T (d @ ''/'' @ nm) w = (0, w1) \<and>
      cp T (d @ ''/'' @ nm @ ''.c'') ((d @ ''/'' @ nm) @ ''/'') w1 = (0, w2) \<and>
      cd T rr w2 = 0 \<and>
      qcc T rr (compile_args rr d nm) w2 = (0, w3) \<and>
      cd T (d @ ''/'' @ nm) w3 = 0 \<and>
      exec T (d @ ''/'' @ nm) (''./'' @ nm) w3 = (0, world sh) \<and>
      trace sh = run_plan T script d rr nm \<and>
      present (world sh) ((d @ ''/'' @ nm) @ ''/'' @ nm @ ''.c'') \<and>
      present (world sh) ((d @ ''/'' @ nm) @ ''/'' @ nm)"
proof -
  from assms(1,6) obtain d rr w1 w2 w3 where
    r1: "resolve T (dirname T script) w = Some d" and
    r2: "resolve T (d @ ''/..'') w = Some rr" and
    m: "mkdir_p T (d @ ''/'' @ nm) w = (0, w1)" and
    c: "cp T (d @ ''/'' @ nm @ ''.c'') ((d @ ''/'' @ nm) @ ''/'') w1 = (0, w2)" and
    d1: "cd T rr w2 = 0" and
    q: "qcc T rr (compile_args rr d nm) w2 = (0, w3)" and
    d2: "cd T (d @ ''/'' @ nm) w3 = 0" and
    x: "exec T (d @ ''/'' @ nm) (''./'' @ nm) w3 = (0, world sh)" and
    tr: "trace sh = run_plan T script d rr nm"
    by (rule runCases_success)
  have n: "CHR ''/'' \<notin> set (nm @ ''.c'')" using assms(2) by simp
  have p2: "present w2 ((d @ ''/'' @ nm) @ ''/'' @ nm @ ''.c'')"
    using assms(3) n c unfolding cp_copies_def by blast
  have a: "compile_args rr d nm =
      [''-I'' @ rr @ ''/src-local'', ''-O2'', ''-Wall'', ''-disable-dimensions'',
       d @ ''/'' @ nm @ ''.c''] @ [''-o'', (d @ ''/'' @ nm) @ ''/'' @ nm] @ [''-lm'']"
    by (simp add: compile_args_def)
  have o: "''-o'' \<notin> set [''-I'' @ rr @ ''/src-local'', ''-O2'', ''-Wall'',
       ''-disable-dimensions'', d @ ''/'' @ nm @ ''.c'']"
  proof -
    have "''-o'' \<noteq> d @ ''/'' @ nm @ ''.c''"
    proof
      assume "''-o'' = d @ ''/'' @ nm @ ''.c''"
      then have "CHR ''/'' \<in> set ''-o''" by (metis in_set_conv_decomp append_Cons)
      then show False by simp
    qed
    then show ?thesis by simp
  qed
  have p3: "present w3 ((d @ ''/'' @ nm) @ ''/'' @ nm) \<and> (\<forall>p. present w2 p \<longrightarrow> present w3 p)"
    using assms(4) o q unfolding qcc_builds_def a by blast
  have p4: "present w3 p \<Longrightarrow> present (world sh) p" for p
    using assms(5) x unfolding exec_keeps_def by blast
  show ?thesis
    using r1 r2 m c d1 q d2 x tr p2 p3 p4 by blast
qed

theorem build_copies_compiles_runs_witness:
  "cp_copies tools_demo present_demo \<and> qcc_builds tools_demo present_demo \<and>
   exec_keeps tools_demo present_demo \<and>
   fst (runCases tools_demo ''./runCases.sh'' [''keller-segel''] world_demo) = 0 \<and>
   present_demo world_built ''/repo/simulationCases/keller-segel/keller-segel.c'' \<and>
   present_demo world_built ''/repo/simulationCases/keller-segel/keller-segel''"
proof -
  have s: "CHR ''/'' \<notin> set ''keller-segel''" "''keller-segel'' \<noteq> []" by simp_all
  have "\<exists>d. resolve tools_demo (dirname tools_demo ''./runCases.sh'') world_demo = Some d \<and>
      present_demo world_built ((d @ ''/'' @ ''keller-segel'') @ ''/'' @ ''keller-segel'' @ ''.c'') \<and>
      present_demo world_built ((d @ ''/'' @ ''keller-segel'') @ ''/'' @ ''keller-segel'')"
    using build_copies_compiles_runs [OF s(2) s(1) cp_copies_demo qcc_builds_demo
        exec_keeps_demo demo_run]
    by auto
  then have "present_demo world_built ''/repo/simulationCases/keller-segel/keller-segel.c'' \<and>
      present_demo world_built ''/repo/simulationCases/keller-segel/keller-segel''"
    by (auto simp: tools_demo_def world_demo_def)
  then show ?thesis
    by (simp add: cp_copies_demo qcc_builds_demo exec_keeps_demo demo_run)
qed

subsection \<open>The cleanup\<close>

text \<open>
  Claim C6. When \<^verbatim>\<open>cleanup.sh\<close>, called with a case name \<open>nm\<close>, ends with status 0, it
  has run \<^verbatim>\<open>rm -rf\<close> on the output directory \<open>d/nm\<close> and nothing is left at or below it.
  Called again with the same name it ends with status 0 again, writes nothing to
  standard error and leaves the world as it is, because \<^verbatim>\<open>rm -rf\<close> succeeds and changes
  nothing where nothing is left.
\<close>

theorem cleanup_removes_and_is_idempotent:
  assumes "nm \<noteq> []"
    and "resolve T (dirname T script) w = Some d"
    and "rm_rf_force T present (d @ ''/'' @ nm)"
    and "cleanup T script (nm # rest) w = (0, sh)"
    and "resolve T (dirname T script) (world sh) = Some d"
  shows "rm_rf T (d @ ''/'' @ nm) w = (0, world sh) \<and>
         trace sh = clean_plan T script d nm \<and>
         (\<forall>q. under (d @ ''/'' @ nm) q \<longrightarrow> \<not> present (world sh) q) \<and>
         cleanup T script (nm # rest) (world sh) =
           (0, \<lparr>world = world sh, trace = clean_plan T script d nm, stderr = []\<rparr>)"
proof -
  obtain c w' where r: "rm_rf T (d @ ''/'' @ nm) w = (c, w')" by fastforce
  have e: "c = 0" "sh = \<lparr>world = w', trace = clean_plan T script d nm, stderr = []\<rparr>"
    using cleanup_steps [OF assms(1,2) r, of rest] assms(4) by simp_all
  have gone: "\<not> present (world sh) q" if "under (d @ ''/'' @ nm) q" for q
    using assms(3) r e that unfolding rm_rf_force_def by auto
  then have "rm_rf T (d @ ''/'' @ nm) (world sh) = (0, world sh)"
    using assms(3) unfolding rm_rf_force_def by blast
  then have "cleanup T script (nm # rest) (world sh) =
      (0, \<lparr>world = world sh, trace = clean_plan T script d nm, stderr = []\<rparr>)"
    by (rule cleanup_steps [OF assms(1,5)])
  then show ?thesis
    using r e gone by simp
qed

theorem cleanup_removes_and_is_idempotent_witness:
  "rm_rf_force tools_demo present_demo ''/repo/simulationCases/keller-segel'' \<and>
   cleanup tools_demo ''./cleanup.sh'' [''keller-segel''] world_built =
     (0, \<lparr>world = world_demo,
          trace = [Resolve ''/repo/simulationCases'', Rm_rf ''/repo/simulationCases/keller-segel''],
          stderr = []\<rparr>) \<and>
   cleanup tools_demo ''./cleanup.sh'' [''keller-segel''] world_demo =
     (0, \<lparr>world = world_demo,
          trace = [Resolve ''/repo/simulationCases'', Rm_rf ''/repo/simulationCases/keller-segel''],
          stderr = []\<rparr>) \<and>
   \<not> present_demo world_demo ''/repo/simulationCases/keller-segel/f.mp4''"
proof -
  have f: "rm_rf_force tools_demo present_demo (''/repo/simulationCases'' @ ''/'' @ ''keller-segel'')"
    by (auto simp: rm_rf_force_def tools_demo_def present_demo_def filter_id_conv)
  have r: "resolve tools_demo (dirname tools_demo ''./cleanup.sh'') world_built =
             Some ''/repo/simulationCases''"
    "resolve tools_demo (dirname tools_demo ''./cleanup.sh'')
       (world \<lparr>world = world_demo,
          trace = clean_plan tools_demo ''./cleanup.sh'' ''/repo/simulationCases''
                    ''keller-segel'',
          stderr = []\<rparr>) = Some ''/repo/simulationCases''"
    by (simp_all add: tools_demo_def world_built_def world_demo_def)
  have n: "''keller-segel'' \<noteq> []" by simp
  have c: "clean_plan tools_demo ''./cleanup.sh'' ''/repo/simulationCases'' ''keller-segel'' =
      [Resolve ''/repo/simulationCases'', Rm_rf ''/repo/simulationCases/keller-segel'']"
    by (simp add: clean_plan_def tools_demo_def)
  have "cleanup tools_demo ''./cleanup.sh'' [''keller-segel''] world_demo =
     (0, \<lparr>world = world_demo,
          trace = [Resolve ''/repo/simulationCases'', Rm_rf ''/repo/simulationCases/keller-segel''],
          stderr = []\<rparr>)"
    using cleanup_removes_and_is_idempotent [OF n r(1) f demo_clean r(2)]
    by (simp add: c)
  moreover have "\<not> present_demo world_demo ''/repo/simulationCases/keller-segel/f.mp4''"
    by (simp add: present_demo_def world_demo_def)
  moreover have "rm_rf_force tools_demo present_demo ''/repo/simulationCases/keller-segel''"
    using f by simp
  ultimately show ?thesis
    using demo_clean by (simp add: c)
qed

end
